theory Spec2Isabelle
  imports Main "HOL-Library.Word" "HOL-Library.Sublist"
begin

section \<open>JavaScript strings\<close>

text \<open>
  A JavaScript string is a sequence of UTF-16 code units, and \<open>.length\<close> counts code
  units. Literals of the page are written with \<open>js\<close>.
\<close>

type_synonym jsstring = "16 word list"

definition js :: "string \<Rightarrow> jsstring" where
  "js s = map of_char s"

text \<open>
  \<open>String.prototype.trim\<close> removes the code units of the ECMAScript productions
  WhiteSpace and LineTerminator from both ends.
\<close>

definition isWhiteSpace :: "16 word \<Rightarrow> bool" where
  "isWhiteSpace c \<longleftrightarrow>
     c \<in> set [0x0009, 0x000A, 0x000B, 0x000C, 0x000D, 0x0020, 0x00A0, 0x1680,
              0x2000, 0x2001, 0x2002, 0x2003, 0x2004, 0x2005, 0x2006, 0x2007,
              0x2008, 0x2009, 0x200A, 0x2028, 0x2029, 0x202F, 0x205F, 0x3000, 0xFEFF]"

definition trim :: "jsstring \<Rightarrow> jsstring" where
  "trim s = rev (dropWhile isWhiteSpace (rev (dropWhile isWhiteSpace s)))"

text \<open>
  \<open>s.split(sep)\<close> for a separator of one code unit: the pieces between the
  occurrences of the separator, empty pieces included; the empty string gives one
  empty piece.
\<close>

fun split :: "16 word \<Rightarrow> jsstring \<Rightarrow> jsstring list" where
  "split sep [] = [[]]"
| "split sep (c # cs) =
     (if c = sep then [] # split sep cs
      else (case split sep cs of [] \<Rightarrow> [[c]] | t # ts \<Rightarrow> (c # t) # ts))"

text \<open>\<open>xs.join(sep)\<close>; the empty array gives the empty string.\<close>

fun join :: "jsstring \<Rightarrow> jsstring list \<Rightarrow> jsstring" where
  "join sep [] = []"
| "join sep [x] = x"
| "join sep (x # y # ys) = x @ sep @ join sep (y # ys)"

text \<open>\<open>Boolean(s)\<close> for a string: every string but the empty one is truthy.\<close>

definition Boolean :: "jsstring \<Rightarrow> bool" where
  "Boolean s \<longleftrightarrow> s \<noteq> []"

text \<open>\<open>a || b\<close> on strings: \<open>a\<close> when it is truthy, else \<open>b\<close>.\<close>

definition or_else :: "jsstring \<Rightarrow> jsstring \<Rightarrow> jsstring" where
  "or_else a b = (if Boolean a then a else b)"

section \<open>The schema\<close>

text \<open>
  The object handed to \<open>QuickIntakeSchema.safeParse\<close>. Its keys \<open>phone\<close> and
  \<open>location\<close> carry the suffix \<open>_in\<close> here, the component's state variables of the
  same names keep theirs.
\<close>

record quick_intake =
  full_name :: jsstring
  phone_in :: jsstring
  issue_type :: jsstring
  location_in :: jsstring
  consent_privacy :: bool
  consent_communication :: bool

datatype zod_issue = too_small | invalid_enum_value | invalid_literal

definition z_string_min :: "nat \<Rightarrow> jsstring \<Rightarrow> zod_issue list" where
  "z_string_min n s = (if length s < n then [too_small] else [])"

definition z_enum :: "jsstring list \<Rightarrow> jsstring \<Rightarrow> zod_issue list" where
  "z_enum vs s = (if s \<in> set vs then [] else [invalid_enum_value])"

definition z_literal_true :: "bool \<Rightarrow> zod_issue list" where
  "z_literal_true b = (if b = True then [] else [invalid_literal])"

definition issue_type_values :: "jsstring list" where
  "issue_type_values =
     [js ''work_injury'', js ''mva'', js ''sports'', js ''chronic_pain'', js ''other'']"

definition location_values :: "jsstring list" where
  "location_values = [js ''edmonton-main-hub'', js ''edmonton-west'']"

text \<open>The issues the schema reports for an object, key by key.\<close>

definition QuickIntakeSchema :: "quick_intake \<Rightarrow> zod_issue list" where
  "QuickIntakeSchema x =
     z_string_min 3 (full_name x) @
     z_string_min 10 (phone_in x) @
     z_enum issue_type_values (issue_type x) @
     z_enum location_values (location_in x) @
     z_literal_true (consent_privacy x) @
     z_literal_true (consent_communication x)"

text \<open>\<open>safeParse\<close>: \<open>Some\<close> of the parsed data when \<open>success\<close>, else \<open>None\<close>.\<close>

definition safeParse :: "quick_intake \<Rightarrow> quick_intake option" where
  "safeParse x = (if QuickIntakeSchema x = [] then Some x else None)"

definition issueTypeToInsurance :: "jsstring \<Rightarrow> jsstring" where
  "issueTypeToInsurance issueType =
     (if issueType = js ''work_injury'' then js ''wcb''
      else if issueType = js ''mva'' then js ''mva''
      else js ''private'')"

section \<open>The component's state\<close>

record form_state =
  fullName :: jsstring
  phone :: jsstring
  issueType :: jsstring
  location :: jsstring
  consentPrivacy :: bool
  consentCommunication :: bool
  isSubmitting :: bool
  success :: bool
  error :: "jsstring option"

text \<open>The values of \<open>useState\<close> at mount.\<close>

definition initial_state :: form_state where
  "initial_state =
     \<lparr>fullName = js '''', phone = js '''', issueType = js ''work_injury'',
      location = js ''edmonton-main-hub'', consentPrivacy = True,
      consentCommunication = True, isSubmitting = False, success = False, error = None\<rparr>"

text \<open>The six fields of the draft, as a tuple.\<close>

definition draft :: "form_state \<Rightarrow> jsstring \<times> jsstring \<times> jsstring \<times> jsstring \<times> bool \<times> bool" where
  "draft s = (fullName s, phone s, issueType s, location s, consentPrivacy s,
              consentCommunication s)"

section \<open>The request\<close>

record patient =
  first_name :: jsstring
  last_name :: jsstring
  patient_phone :: jsstring

record injury =
  injury_type :: jsstring

record insurance =
  insurance_type :: jsstring

record consent =
  privacy_consent :: bool
  treatment_consent :: bool
  communication_consent :: bool

record submission_payload =
  session_id :: jsstring
  patient_data :: patient
  injury_data :: injury
  insurance_data :: insurance
  medical_history :: "(jsstring \<times> jsstring) list"
  consent_data :: consent
  status :: jsstring

record request =
  url :: jsstring
  http_method :: jsstring
  headers :: "(jsstring \<times> jsstring) list"
  body :: submission_payload

text \<open>
  What \<open>await fetch(...)\<close> gives: a response with its HTTP status, or a rejection
  when the request cannot be completed. \<open>res.ok\<close> is true for the statuses 200 to 299.
\<close>

datatype fetch_result = Resolved nat | Rejected

definition ok :: "nat \<Rightarrow> bool" where
  "ok st \<longleftrightarrow> 200 \<le> st \<and> st \<le> 299"

datatype js_error = TypeError | Error jsstring

section \<open>onSubmit\<close>

definition validation_message :: jsstring where
  "validation_message = js ''Please complete all required fields.''"

definition missing_session_message :: jsstring where
  "missing_session_message = js ''Missing session. Please refresh and try again.''"

definition submission_failed_message :: jsstring where
  "submission_failed_message =
     js ''Something went wrong submitting your intake. Please call (780) 250-8188.''"

definition fallback_phone :: jsstring where
  "fallback_phone = js ''(780) 250-8188''"

text \<open>The object of lines 46 to 53.\<close>

definition schema_input :: "form_state \<Rightarrow> quick_intake" where
  "schema_input s =
     \<lparr>full_name = trim (fullName s), phone_in = trim (phone s), issue_type = issueType s,
      location_in = location s, consent_privacy = consentPrivacy s,
      consent_communication = consentCommunication s\<rparr>"

text \<open>Lines 68 to 70: the array \<open>names\<close>, \<open>firstName\<close> and \<open>lastName\<close>.\<close>

definition names :: "jsstring \<Rightarrow> jsstring list" where
  "names full = filter Boolean (split 0x20 (trim full))"

definition firstName :: "jsstring \<Rightarrow> jsstring" where
  "firstName full = or_else (case names full of [] \<Rightarrow> [] | n # _ \<Rightarrow> n) (js '''')"

definition lastName :: "jsstring \<Rightarrow> jsstring" where
  "lastName full = or_else (join (js '' '') (drop 1 (names full))) (js '''')"

text \<open>Lines 72 to 88: the request handed to \<open>fetch\<close>.\<close>

definition payload :: "jsstring \<Rightarrow> form_state \<Rightarrow> submission_payload" where
  "payload sid s =
     \<lparr>session_id = sid,
      patient_data = \<lparr>first_name = firstName (fullName s), last_name = lastName (fullName s),
                      patient_phone = phone s\<rparr>,
      injury_data = \<lparr>injury_type = issueType s\<rparr>,
      insurance_data = \<lparr>insurance_type = issueTypeToInsurance (issueType s)\<rparr>,
      medical_history = [],
      consent_data = \<lparr>privacy_consent = True, treatment_consent = False,
                      communication_consent = True\<rparr>,
      status = js ''submitted''\<rparr>"

definition save_request :: "jsstring \<Rightarrow> form_state \<Rightarrow> request" where
  "save_request sid s =
     \<lparr>url = js ''/api/intake/save'', http_method = js ''POST'',
      headers = [(js ''Content-Type'', js ''application/json'')],
      body = payload sid s\<rparr>"

text \<open>
  \<open>onSubmit\<close> up to the \<open>await\<close> of line 72: the state after the setters that ran, and
  the request handed to \<open>fetch\<close>, if one was. The tracking provider gives a string or
  nothing; \<open>!sessionId\<close> holds for nothing and for the empty string.
\<close>

definition onSubmit_begin :: "jsstring option \<Rightarrow> form_state \<Rightarrow> form_state \<times> request option" where
  "onSubmit_begin sessionId s =
     (let s1 = s\<lparr>error := None\<rparr> in
      case safeParse (schema_input s) of
        None \<Rightarrow> (s1\<lparr>error := Some validation_message\<rparr>, None)
      | Some parsed \<Rightarrow>
          (case sessionId of
             None \<Rightarrow> (s1\<lparr>error := Some missing_session_message\<rparr>, None)
           | Some sid \<Rightarrow>
               if \<not> Boolean sid
               then (s1\<lparr>error := Some missing_session_message\<rparr>, None)
               else (s1\<lparr>isSubmitting := True\<rparr>, Some (save_request sid s))))"

text \<open>
  The rest of the \<open>try\<close> block, from the settled \<open>fetch\<close> on: a rejection and a
  response that is not \<open>ok\<close> throw, else \<open>setSuccess(true)\<close>.
\<close>

definition try_block :: "fetch_result \<Rightarrow> form_state \<Rightarrow> js_error + form_state" where
  "try_block r s =
     (case r of
        Rejected \<Rightarrow> Inl TypeError
      | Resolved st \<Rightarrow>
          if \<not> ok st then Inl (Error (js ''Failed to submit intake''))
          else Inr (s\<lparr>success := True\<rparr>))"

text \<open>
  \<open>onSubmit\<close> after the \<open>await\<close>, on the state the component has when the request
  settles: \<open>try\<close>, \<open>catch\<close>, \<open>finally\<close>. \<open>Inl\<close> would be an error leaving \<open>onSubmit\<close>.
\<close>

definition onSubmit_resume :: "fetch_result \<Rightarrow> form_state \<Rightarrow> js_error + form_state" where
  "onSubmit_resume r s =
     (case try_block r s of
        Inl e \<Rightarrow> Inr (s\<lparr>error := Some submission_failed_message, isSubmitting := False\<rparr>)
      | Inr s' \<Rightarrow> Inr (s'\<lparr>isSubmitting := False\<rparr>))"

text \<open>
  One whole run of \<open>onSubmit\<close> with nothing else happening in between: \<open>fetch\<close> is
  the function that settles the request. The result is the final state and the
  requests made, or the error that left \<open>onSubmit\<close>.
\<close>

definition onSubmit ::
    "(request \<Rightarrow> fetch_result) \<Rightarrow> jsstring option \<Rightarrow> form_state \<Rightarrow> js_error + (form_state \<times> request list)" where
  "onSubmit fetch sessionId s =
     (case onSubmit_begin sessionId s of
        (s', None) \<Rightarrow> Inr (s', [])
      | (s', Some req) \<Rightarrow>
          (case onSubmit_resume (fetch req) s' of
             Inl e \<Rightarrow> Inl e
           | Inr s'' \<Rightarrow> Inr (s'', [req])))"

section \<open>The view and its events\<close>

datatype view_state = Editing | Submitting | Success | EditingWithError

text \<open>
  What is rendered: the success card when \<open>success\<close> (line 102), else the form, with
  the spinner while \<open>isSubmitting\<close> and the alert when \<open>error\<close> is set.
\<close>

definition view :: "form_state \<Rightarrow> view_state" where
  "view s =
     (if success s then Success
      else if isSubmitting s then Submitting
      else if error s \<noteq> None then EditingWithError
      else Editing)"

text \<open>
  The component in its environment: the state, the session of the tracking provider,
  the requests that have not settled yet, every request made so far, and the errors
  that left \<open>onSubmit\<close>.
\<close>

record world =
  form :: form_state
  sessionId :: "jsstring option"
  outstanding :: "request list"
  sent :: "request list"
  uncaught :: "js_error list"

definition mount :: "jsstring option \<Rightarrow> world" where
  "mount sid = \<lparr>form = initial_state, sessionId = sid, outstanding = [], sent = [],
                uncaught = []\<rparr>"

datatype event =
    SetFullName jsstring
  | SetPhone jsstring
  | SetIssueType jsstring
  | SetLocation jsstring
  | SetConsentPrivacy bool
  | SetConsentCommunication bool
  | Tracking "jsstring option"
  | ClickSubmit
  | Settled fetch_result

text \<open>
  The inputs exist only in the form (not in the success card), and the button is
  \<open>disabled\<close> while \<open>isSubmitting\<close> (line 211).
\<close>

definition form_rendered :: "form_state \<Rightarrow> bool" where
  "form_rendered s \<longleftrightarrow> \<not> success s"

definition submit_enabled :: "form_state \<Rightarrow> bool" where
  "submit_enabled s \<longleftrightarrow> form_rendered s \<and> \<not> isSubmitting s"

definition edit :: "(form_state \<Rightarrow> form_state) \<Rightarrow> world \<Rightarrow> world" where
  "edit f w = (if form_rendered (form w) then w\<lparr>form := f (form w)\<rparr> else w)"

definition click :: "world \<Rightarrow> world" where
  "click w =
     (if submit_enabled (form w)
      then (case onSubmit_begin (sessionId w) (form w) of
              (s', None) \<Rightarrow> w\<lparr>form := s'\<rparr>
            | (s', Some req) \<Rightarrow>
                w\<lparr>form := s', outstanding := outstanding w @ [req], sent := sent w @ [req]\<rparr>)
      else w)"

definition settle :: "fetch_result \<Rightarrow> world \<Rightarrow> world" where
  "settle r w =
     (case outstanding w of
        [] \<Rightarrow> w
      | req # rest \<Rightarrow>
          (case onSubmit_resume r (form w) of
             Inl e \<Rightarrow> w\<lparr>outstanding := rest, uncaught := uncaught w @ [e]\<rparr>
           | Inr s' \<Rightarrow> w\<lparr>form := s', outstanding := rest\<rparr>))"

fun step :: "world \<Rightarrow> event \<Rightarrow> world" where
  "step w (SetFullName v) = edit (\<lambda>s. s\<lparr>fullName := v\<rparr>) w"
| "step w (SetPhone v) = edit (\<lambda>s. s\<lparr>phone := v\<rparr>) w"
| "step w (SetIssueType v) = edit (\<lambda>s. s\<lparr>issueType := v\<rparr>) w"
| "step w (SetLocation v) = edit (\<lambda>s. s\<lparr>location := v\<rparr>) w"
| "step w (SetConsentPrivacy b) = edit (\<lambda>s. s\<lparr>consentPrivacy := b\<rparr>) w"
| "step w (SetConsentCommunication b) = edit (\<lambda>s. s\<lparr>consentCommunication := b\<rparr>) w"
| "step w (Tracking sid) = w\<lparr>sessionId := sid\<rparr>"
| "step w ClickSubmit = click w"
| "step w (Settled r) = settle r w"

definition run :: "world \<Rightarrow> event list \<Rightarrow> world" where
  "run w evs = foldl step w evs"

section \<open>The name splitter in the specification's words\<close>

text \<open>
  A second definition, to compare with lines 68 to 70: the name is split on
  whitespace, the first token is the first name, the remaining tokens joined with
  single spaces are the last name, and both are empty when there is no token.
\<close>

fun pieces :: "(16 word \<Rightarrow> bool) \<Rightarrow> jsstring \<Rightarrow> jsstring list" where
  "pieces P [] = [[]]"
| "pieces P (c # cs) =
     (if P c then [] # pieces P cs
      else (case pieces P cs of [] \<Rightarrow> [[c]] | t # ts \<Rightarrow> (c # t) # ts))"

definition tokens_spec :: "jsstring \<Rightarrow> jsstring list" where
  "tokens_spec full = filter (\<lambda>t. t \<noteq> []) (pieces isWhiteSpace full)"

definition split_name_spec :: "jsstring \<Rightarrow> jsstring \<times> jsstring" where
  "split_name_spec full =
     (case tokens_spec full of [] \<Rightarrow> ([], []) | t # ts \<Rightarrow> (t, join (js '' '') ts))"

text \<open>A name pasted with a tab between its two words.\<close>

definition mary_tab_jane :: jsstring where
  "mary_tab_jane = js ''Mary'' @ [0x0009] @ js ''Jane''"

text \<open>The name "John Smith" pasted with a tab before it and a no-break space after it.\<close>

definition padded_john_smith :: jsstring where
  "padded_john_smith = [0x0009] @ js ''John Smith'' @ [0x00A0]"

section \<open>Sample drafts\<close>

text \<open>
  The valid draft of the specification's examples, and the same draft with a space
  typed before the phone number.
\<close>

definition john_smith :: form_state where
  "john_smith = initial_state\<lparr>fullName := js ''John Smith'', phone := js ''7802508188''\<rparr>"

definition padded_phone :: form_state where
  "padded_phone = john_smith\<lparr>phone := js '' 7802508188''\<rparr>"

text \<open>
  The events of one successful submission of that draft, and further events after it.
\<close>

definition fill_in :: "event list" where
  "fill_in = [SetFullName (js ''John Smith''), SetPhone (js ''7802508188'')]"

definition submitted_ok :: "event list" where
  "submitted_ok = fill_in @ [ClickSubmit, Settled (Resolved 200)]"

definition later_events :: "event list" where
  "later_events = [SetFullName (js ''Jane''), ClickSubmit, Settled Rejected, SetConsentPrivacy False]"

text \<open>
  The invariant of the in-flight flag: at most one request is outstanding, and
  \<open>isSubmitting\<close> holds exactly when one is.
\<close>

definition one_flight :: "world \<Rightarrow> bool" where
  "one_flight w \<longleftrightarrow>
     length (outstanding w) \<le> 1 \<and> (isSubmitting (form w) \<longleftrightarrow> outstanding w \<noteq> [])"

section \<open>Validation\<close>

lemma QuickIntakeSchema_empty_iff:
  "QuickIntakeSchema (schema_input s) = [] \<longleftrightarrow>
     3 \<le> length (trim (fullName s)) \<and> 10 \<le> length (trim (phone s)) \<and>
     issueType s \<in> set issue_type_values \<and> location s \<in> set location_values \<and>
     consentPrivacy s = True \<and> consentCommunication s = True"
  by (auto simp: QuickIntakeSchema_def schema_input_def z_string_min_def z_enum_def
      z_literal_true_def)

lemma onSubmit_invalid:
  "safeParse (schema_input s) = None \<Longrightarrow>
     onSubmit fetch sid s = Inr (s\<lparr>error := Some validation_message\<rparr>, [])"
  by (simp add: onSubmit_def onSubmit_begin_def)

lemma initial_state_invalid: "safeParse (schema_input initial_state) = None"
  by (simp add: safeParse_def QuickIntakeSchema_def schema_input_def initial_state_def
      z_string_min_def trim_def js_def)

lemma john_smith_valid: "safeParse (schema_input john_smith) = Some (schema_input john_smith)"
  by (simp add: john_smith_def safeParse_def QuickIntakeSchema_def schema_input_def
      initial_state_def z_string_min_def z_enum_def z_literal_true_def issue_type_values_def
      location_values_def trim_def js_def isWhiteSpace_def)

text \<open>
  C1. The schema accepts the object built from a draft exactly when the trimmed
  \<open>fullName\<close> has at least 3 code units, the trimmed \<open>phone\<close> at least 10,
  \<open>issueType\<close> and \<open>location\<close> are values of their enumerations and both consents
  are \<open>true\<close>. In every other case \<open>safeParse\<close> fails, \<open>onSubmit\<close> ends with the one
  message "Please complete all required fields." and makes no request.
\<close>

theorem validate_iff:
  "(safeParse (schema_input s) = Some (schema_input s) \<longleftrightarrow>
      3 \<le> length (trim (fullName s)) \<and> 10 \<le> length (trim (phone s)) \<and>
      issueType s \<in> set issue_type_values \<and> location s \<in> set location_values \<and>
      consentPrivacy s = True \<and> consentCommunication s = True) \<and>
   (safeParse (schema_input s) \<noteq> Some (schema_input s) \<longrightarrow>
      safeParse (schema_input s) = None \<and>
      onSubmit fetch sid s = Inr (s\<lparr>error := Some validation_message\<rparr>, []))"
proof -
  have a: "safeParse (schema_input s) = Some (schema_input s) \<longleftrightarrow>
      QuickIntakeSchema (schema_input s) = []"
    by (simp add: safeParse_def)
  have b: "safeParse (schema_input s) \<noteq> Some (schema_input s) \<Longrightarrow>
      safeParse (schema_input s) = None"
    by (simp add: safeParse_def split: if_splits)
  show ?thesis
    using a b QuickIntakeSchema_empty_iff [of s] onSubmit_invalid [of s fetch sid] by blast
qed

theorem validate_iff_witness:
  "safeParse (schema_input initial_state) \<noteq> Some (schema_input initial_state) \<and>
   length (trim (fullName initial_state)) < 3 \<and>
   onSubmit (\<lambda>_. Resolved 200) (Some (js ''abc123'')) initial_state =
     Inr (initial_state\<lparr>error := Some validation_message\<rparr>, []) \<and>
   safeParse (schema_input john_smith) = Some (schema_input john_smith) \<and>
   3 \<le> length (trim (fullName john_smith)) \<and> 10 \<le> length (trim (phone john_smith))"
proof -
  have h: "safeParse (schema_input initial_state) \<noteq> Some (schema_input initial_state)"
    by (simp add: initial_state_invalid)
  have v: "safeParse (schema_input john_smith) = Some (schema_input john_smith)"
    by (rule john_smith_valid)
  show ?thesis
    using h v validate_iff [of initial_state "\<lambda>_. Resolved 200" "Some (js ''abc123'')"]
      validate_iff [of john_smith]
    by (simp add: initial_state_def trim_def js_def)
qed

section \<open>The payload\<close>

text \<open>
  C2. The draft \<open>padded_phone\<close> passes validation and its request is made, and the
  \<open>phone\<close> of the payload is the state variable as typed, with its leading space: it
  is not the trimmed phone that was validated.
\<close>

theorem payload_phone_not_trimmed:
  "safeParse (schema_input padded_phone) \<noteq> None \<and>
   onSubmit_begin (Some (js ''abc123'')) padded_phone =
     (padded_phone\<lparr>error := None, isSubmitting := True\<rparr>,
      Some (save_request (js ''abc123'') padded_phone)) \<and>
   patient_phone (patient_data (payload (js ''abc123'') padded_phone)) = js '' 7802508188'' \<and>
   trim (phone padded_phone) = js ''7802508188'' \<and>
   patient_phone (patient_data (payload (js ''abc123'') padded_phone))
     \<noteq> trim (phone padded_phone)"
  by (simp add: padded_phone_def john_smith_def safeParse_def QuickIntakeSchema_def
      schema_input_def initial_state_def z_string_min_def z_enum_def z_literal_true_def
      issue_type_values_def location_values_def trim_def js_def isWhiteSpace_def
      onSubmit_begin_def payload_def Boolean_def)

lemma onSubmit_begin_request:
  "onSubmit_begin sid s = (s', Some req) \<Longrightarrow>
     \<exists>v. sid = Some v \<and> v \<noteq> [] \<and> req = save_request v s \<and>
         safeParse (schema_input s) = Some (schema_input s) \<and>
         s' = s\<lparr>error := None, isSubmitting := True\<rparr>"
  by (auto simp: onSubmit_begin_def Let_def safeParse_def Boolean_def
      split: option.splits if_splits)

lemma john_smith_begin:
  "onSubmit_begin (Some (js ''abc123'')) john_smith =
     (john_smith\<lparr>error := None, isSubmitting := True\<rparr>,
      Some (save_request (js ''abc123'') john_smith))"
  using john_smith_valid by (simp add: onSubmit_begin_def Boolean_def js_def)

text \<open>
  C3. Whenever \<open>onSubmit\<close> hands a request to \<open>fetch\<close>, the payload has
  \<open>consent_data\<close> equal to privacy \<open>true\<close>, treatment \<open>false\<close>, communication \<open>true\<close>,
  an empty \<open>medical_history\<close> and the \<open>status\<close> "submitted", whatever the draft holds.
\<close>

theorem payload_constants:
  "onSubmit_begin sid s = (s', Some req) \<Longrightarrow>
     consent_data (body req) =
       \<lparr>privacy_consent = True, treatment_consent = False, communication_consent = True\<rparr> \<and>
     medical_history (body req) = [] \<and>
     status (body req) = js ''submitted''"
  by (auto dest!: onSubmit_begin_request simp: save_request_def payload_def)

theorem payload_constants_witness:
  "onSubmit_begin (Some (js ''abc123'')) john_smith =
     (john_smith\<lparr>error := None, isSubmitting := True\<rparr>,
      Some (save_request (js ''abc123'') john_smith)) \<and>
   consent_data (body (save_request (js ''abc123'') john_smith)) =
     \<lparr>privacy_consent = True, treatment_consent = False, communication_consent = True\<rparr> \<and>
   medical_history (body (save_request (js ''abc123'') john_smith)) = [] \<and>
   status (body (save_request (js ''abc123'') john_smith)) = js ''submitted'' \<and>
   insurance_type (insurance_data (body (save_request (js ''abc123'') john_smith))) = js ''wcb''"
  using john_smith_begin payload_constants [OF john_smith_begin]
  by (simp add: save_request_def payload_def issueTypeToInsurance_def john_smith_def
      initial_state_def)

text \<open>
  C4. \<open>issueTypeToInsurance\<close> on the five values of the enumeration: \<open>work_injury\<close>
  gives "wcb", \<open>mva\<close> gives "mva", and \<open>sports\<close>, \<open>chronic_pain\<close> and \<open>other\<close> give
  "private".
\<close>

theorem issueTypeToInsurance_table:
  "issue_type_values =
     [js ''work_injury'', js ''mva'', js ''sports'', js ''chronic_pain'', js ''other''] \<and>
   issueTypeToInsurance (js ''work_injury'') = js ''wcb'' \<and>
   issueTypeToInsurance (js ''mva'') = js ''mva'' \<and>
   issueTypeToInsurance (js ''sports'') = js ''private'' \<and>
   issueTypeToInsurance (js ''chronic_pain'') = js ''private'' \<and>
   issueTypeToInsurance (js ''other'') = js ''private''"
  by (simp add: issueTypeToInsurance_def issue_type_values_def js_def)

section \<open>Name splitting\<close>

lemma pieces_not_Nil: "pieces P x \<noteq> []"
  by (induction x) (auto split: list.splits)

lemma pieces_cong: "(\<And>c. c \<in> set x \<Longrightarrow> P c = Q c) \<Longrightarrow> pieces P x = pieces Q x"
  by (induction x) auto

lemma split_pieces: "split sep x = pieces (\<lambda>c. c = sep) x"
  by (induction x) auto

lemma pieces_snoc: "P c \<Longrightarrow> pieces P (xs @ [c]) = pieces P xs @ [[]]"
proof (induction xs)
  case Nil
  then show ?case by simp
next
  case (Cons a xs)
  then show ?case
    using pieces_not_Nil [of P xs] by (cases "pieces P xs") auto
qed

lemma tokens_dropWhile:
  "filter (\<lambda>t. t \<noteq> []) (pieces P (dropWhile P x)) = filter (\<lambda>t. t \<noteq> []) (pieces P x)"
  by (induction x) auto

lemma tokens_drop_trailing:
  "filter (\<lambda>t. t \<noteq> []) (pieces P (rev (dropWhile P (rev y)))) =
   filter (\<lambda>t. t \<noteq> []) (pieces P y)"
proof (induction y rule: rev_induct)
  case Nil
  then show ?case by simp
next
  case (snoc c ys)
  show ?case
  proof (cases "P c")
    case True
    then show ?thesis using snoc by (simp add: pieces_snoc)
  next
    case False
    then show ?thesis by simp
  qed
qed

lemma space_isWhiteSpace: "isWhiteSpace 0x20"
  by (simp add: isWhiteSpace_def)

lemma Boolean_eq: "Boolean = (\<lambda>t. t \<noteq> [])"
  by (simp add: fun_eq_iff Boolean_def)

lemma concat_pieces: "concat (pieces P x) = filter (\<lambda>c. \<not> P c) x"
proof (induction x)
  case Nil
  then show ?case by simp
next
  case (Cons c cs)
  then show ?case
    using pieces_not_Nil [of P cs] by (cases "pieces P cs") auto
qed

lemma set_tokens:
  "\<Union> (set ` set (filter (\<lambda>t. t \<noteq> []) (pieces P x))) = {c \<in> set x. \<not> P c}"
proof -
  have "\<Union> (set ` set (filter (\<lambda>t. t \<noteq> []) (pieces P x))) = \<Union> (set ` set (pieces P x))"
    by auto
  also have "\<dots> = set (concat (pieces P x))"
    by simp
  finally show ?thesis
    by (simp add: concat_pieces)
qed

lemma set_join: "set (join sep ts) \<subseteq> set sep \<union> \<Union> (set ` set ts)"
  by (induction sep ts rule: join.induct) auto

lemma join_contains: "t \<in> set ts \<Longrightarrow> set t \<subseteq> set (join sep ts)"
  by (induction sep ts rule: join.induct) auto

lemma tokens_trim:
  "filter (\<lambda>t. t \<noteq> []) (pieces isWhiteSpace (trim full)) = tokens_spec full"
  unfolding trim_def tokens_spec_def
  by (simp only: tokens_drop_trailing tokens_dropWhile)

lemma names_pieces: "names full = filter (\<lambda>t. t \<noteq> []) (pieces (\<lambda>c. c = 0x20) (trim full))"
  by (simp add: names_def split_pieces Boolean_eq)

lemma names_tokens_spec:
  assumes "\<forall>c \<in> set (trim full). isWhiteSpace c \<longrightarrow> c = 0x20"
  shows "names full = tokens_spec full"
proof -
  have eq: "\<And>c. c \<in> set (trim full) \<Longrightarrow> (c = 0x20) = isWhiteSpace c"
    using assms space_isWhiteSpace by auto
  have "pieces (\<lambda>c. c = 0x20) (trim full) = pieces isWhiteSpace (trim full)"
    by (rule pieces_cong) (rule eq)
  then show ?thesis
    by (simp only: names_pieces tokens_trim)
qed

lemma split_name_code:
  "(firstName full, lastName full) =
     (case names full of [] \<Rightarrow> ([], []) | t # ts \<Rightarrow> (t, join (js '' '') ts))"
  by (cases "names full")
    (auto simp: firstName_def lastName_def or_else_def Boolean_def js_def names_pieces)

lemma code_keeps_chars:
  assumes "c \<in> set (trim full)" and "c \<noteq> 0x20"
  shows "c \<in> set (firstName full) \<union> set (lastName full)"
proof -
  from assms have "c \<in> \<Union> (set ` set (names full))"
    unfolding names_pieces set_tokens by simp
  then obtain t where t: "t \<in> set (names full)" "c \<in> set t"
    by blast
  show ?thesis
  proof (cases "names full")
    case Nil
    with t show ?thesis by simp
  next
    case (Cons n ns)
    have fl: "firstName full = n" "lastName full = join (js '' '') ns"
      using split_name_code [of full] Cons by simp_all
    from t Cons have "t = n \<or> t \<in> set ns" by auto
    then show ?thesis
      using t(2) join_contains [of t ns "js '' ''"] fl by auto
  qed
qed

lemma spec_chars:
  assumes "c \<in> set (fst (split_name_spec full)) \<union> set (snd (split_name_spec full))"
  shows "\<not> isWhiteSpace c \<or> c = 0x20"
proof -
  have tok: "\<And>t. t \<in> set (tokens_spec full) \<Longrightarrow> c \<in> set t \<Longrightarrow> \<not> isWhiteSpace c"
    using set_tokens [of isWhiteSpace full] unfolding tokens_spec_def by blast
  show ?thesis
  proof (cases "tokens_spec full")
    case Nil
    with assms show ?thesis by (simp add: split_name_spec_def)
  next
    case (Cons n ns)
    with assms have "c \<in> set n \<or> c \<in> set (join (js '' '') ns)"
      by (simp add: split_name_spec_def)
    then show ?thesis
    proof
      assume "c \<in> set n"
      with tok [of n] Cons show ?thesis by simp
    next
      assume "c \<in> set (join (js '' '') ns)"
      with set_join [of "js '' ''" ns] have "c \<in> set (js '' '') \<or> (\<exists>t \<in> set ns. c \<in> set t)"
        by auto
      then show ?thesis
        using tok Cons by (auto simp: js_def)
    qed
  qed
qed

lemma split_name_iff:
  "(firstName full, lastName full) = split_name_spec full \<longleftrightarrow>
     (\<forall>c \<in> set (trim full). isWhiteSpace c \<longrightarrow> c = 0x20)"
proof
  assume e: "(firstName full, lastName full) = split_name_spec full"
  show "\<forall>c \<in> set (trim full). isWhiteSpace c \<longrightarrow> c = 0x20"
  proof (intro ballI impI)
    fix c assume c: "c \<in> set (trim full)" "isWhiteSpace c"
    show "c = 0x20"
    proof (rule ccontr)
      assume n: "c \<noteq> 0x20"
      from code_keeps_chars [OF c(1) n] e
      have "c \<in> set (fst (split_name_spec full)) \<union> set (snd (split_name_spec full))"
        by (metis fst_conv snd_conv)
      from spec_chars [OF this] c(2) n show False by simp
    qed
  qed
next
  assume h: "\<forall>c \<in> set (trim full). isWhiteSpace c \<longrightarrow> c = 0x20"
  show "(firstName full, lastName full) = split_name_spec full"
    unfolding split_name_code split_name_spec_def names_tokens_spec [OF h] ..
qed

lemma split_name_examples:
  "firstName (js ''John Smith'') = js ''John''"
  "lastName (js ''John Smith'') = js ''Smith''"
  "firstName (js ''Madonna'') = js ''Madonna''"
  "lastName (js ''Madonna'') = js ''''"
  "firstName (js ''Mary Jane Watson'') = js ''Mary''"
  "lastName (js ''Mary Jane Watson'') = js ''Jane Watson''"
  "firstName (js '''') = js ''''"
  "lastName (js '''') = js ''''"
  by (simp_all add: firstName_def lastName_def names_def trim_def js_def isWhiteSpace_def
      Boolean_def or_else_def)

text \<open>
  C5, as amended. For every \<open>fullName\<close>, the first name and last name of the payload
  are those of the specification's splitter (the name split on whitespace, the first
  token, and the remaining tokens joined with single spaces, both empty when there is
  no token) exactly when every whitespace code unit of the trimmed \<open>fullName\<close> is the
  space U+0020. Whitespace of any kind around the name is removed by \<open>trim\<close>; inside
  the name only the space separates tokens. The four examples of the specification hold
  as written.
\<close>

theorem split_name_on_spaces:
  "((firstName full, lastName full) = split_name_spec full \<longleftrightarrow>
      (\<forall>c \<in> set (trim full). isWhiteSpace c \<longrightarrow> c = 0x20)) \<and>
   firstName (js ''John Smith'') = js ''John'' \<and> lastName (js ''John Smith'') = js ''Smith'' \<and>
   firstName (js ''Madonna'') = js ''Madonna'' \<and> lastName (js ''Madonna'') = js '''' \<and>
   firstName (js ''Mary Jane Watson'') = js ''Mary'' \<and>
   lastName (js ''Mary Jane Watson'') = js ''Jane Watson'' \<and>
   firstName (js '''') = js '''' \<and> lastName (js '''') = js ''''"
  using split_name_iff [of full] by (simp only: split_name_examples simp_thms)

lemma padded_john_smith_trim: "trim padded_john_smith = js ''John Smith''"
  by (simp add: padded_john_smith_def trim_def js_def isWhiteSpace_def)

theorem split_name_on_spaces_witness:
  "trim padded_john_smith = js ''John Smith'' \<and>
   (firstName padded_john_smith, lastName padded_john_smith) =
     split_name_spec padded_john_smith \<and>
   split_name_spec padded_john_smith = (js ''John'', js ''Smith'')"
proof -
  have h: "\<forall>c \<in> set (trim padded_john_smith). isWhiteSpace c \<longrightarrow> c = 0x20"
    by (simp add: padded_john_smith_trim) (simp add: js_def isWhiteSpace_def)
  have v: "split_name_spec padded_john_smith = (js ''John'', js ''Smith'')"
    by (simp add: padded_john_smith_def split_name_spec_def tokens_spec_def js_def
        isWhiteSpace_def)
  from split_name_on_spaces [of padded_john_smith] h
  have "(firstName padded_john_smith, lastName padded_john_smith) =
      split_name_spec padded_john_smith"
    by blast
  with v padded_john_smith_trim show ?thesis by blast
qed

text \<open>
  C5 as stated fails on whitespace other than the space: \<open>split(' ')\<close> does not split
  at a tab, so "Mary<TAB>Jane" is one first name and the last name is empty, where
  splitting on whitespace gives "Mary" and "Jane".
\<close>

theorem split_name_tab_counterexample:
  "firstName mary_tab_jane = mary_tab_jane \<and> lastName mary_tab_jane = js '''' \<and>
   isWhiteSpace 0x0009 \<and>
   split_name_spec mary_tab_jane = (js ''Mary'', js ''Jane'') \<and>
   (firstName mary_tab_jane, lastName mary_tab_jane) \<noteq> split_name_spec mary_tab_jane"
  by (simp add: mary_tab_jane_def firstName_def lastName_def names_def trim_def js_def
      isWhiteSpace_def Boolean_def or_else_def split_name_spec_def tokens_spec_def)

section \<open>Missing session\<close>

lemma messages_distinct: "missing_session_message \<noteq> validation_message"
  by (simp add: missing_session_message_def validation_message_def js_def)

lemma onSubmit_no_session:
  "sid = None \<or> sid = Some (js '''') \<Longrightarrow> safeParse (schema_input s) \<noteq> None \<Longrightarrow>
     onSubmit fetch sid s = Inr (s\<lparr>error := Some missing_session_message\<rparr>, [])"
  by (auto simp: onSubmit_def onSubmit_begin_def Boolean_def js_def)

text \<open>
  C6, as amended. For every draft, when \<open>sessionId\<close> is absent or empty \<open>onSubmit\<close>
  makes no request, whether the draft is valid or not. When the draft is valid the
  message is "Missing session. Please refresh and try again.", which differs from the
  generic validation message; when the draft is invalid the generic validation message
  is the one shown.
\<close>

theorem missing_session_blocks:
  "sid = None \<or> sid = Some (js '''') \<Longrightarrow>
     onSubmit fetch sid s =
       Inr (s\<lparr>error := Some (if safeParse (schema_input s) = None then validation_message
                               else missing_session_message)\<rparr>, []) \<and>
     missing_session_message \<noteq> validation_message"
  using onSubmit_invalid [of s fetch sid] onSubmit_no_session [of sid s fetch] messages_distinct
  by (cases "safeParse (schema_input s) = None") simp_all

theorem missing_session_blocks_witness:
  "onSubmit (\<lambda>_. Resolved 200) None john_smith =
     Inr (john_smith\<lparr>error := Some missing_session_message\<rparr>, []) \<and>
   onSubmit (\<lambda>_. Resolved 200) (Some (js '''')) john_smith =
     Inr (john_smith\<lparr>error := Some missing_session_message\<rparr>, [])"
  using missing_session_blocks [of None "\<lambda>_. Resolved 200" john_smith]
    missing_session_blocks [of "Some (js '''')" "\<lambda>_. Resolved 200" john_smith] john_smith_valid
  by simp

text \<open>
  C6 as stated fails on a draft that is invalid: with no session and the empty form,
  the validation check comes first and the message shown is the generic validation
  message, so the missing session is not surfaced.
\<close>

theorem missing_session_invalid_draft_counterexample:
  "onSubmit_begin None initial_state =
     (initial_state\<lparr>error := Some validation_message\<rparr>, None) \<and>
   error (fst (onSubmit_begin None initial_state)) \<noteq> Some missing_session_message"
  using initial_state_invalid messages_distinct by (simp add: onSubmit_begin_def)

section \<open>Outcomes of the request\<close>

lemma onSubmit_resume_cases:
  "onSubmit_resume r s =
     Inr (if r = Rejected \<or> (\<exists>st. r = Resolved st \<and> \<not> ok st)
          then s\<lparr>error := Some submission_failed_message, isSubmitting := False\<rparr>
          else s\<lparr>success := True, isSubmitting := False\<rparr>)"
  by (cases r) (simp_all add: onSubmit_resume_def try_block_def)

lemma onSubmit_total: "\<exists>s' reqs. onSubmit fetch sid s = Inr (s', reqs)"
  by (cases "onSubmit_begin sid s")
    (auto simp: onSubmit_def onSubmit_resume_cases split: option.splits)

lemma onSubmit_request:
  "onSubmit_begin sid s0 = (s, Some req) \<Longrightarrow>
     \<exists>s'. onSubmit fetch sid s0 = Inr (s', [req]) \<and> onSubmit_resume (fetch req) s = Inr s'"
  by (simp add: onSubmit_def onSubmit_resume_cases)

lemma step_uncaught: "uncaught (step w e) = uncaught w"
  by (cases e)
    (auto simp: edit_def click_def settle_def onSubmit_resume_cases
      split: prod.splits option.splits list.splits)

lemma run_uncaught: "uncaught (run w evs) = uncaught w"
  unfolding run_def by (induction evs arbitrary: w) (simp_all add: step_uncaught)

lemma phone_in_message: "sublist fallback_phone submission_failed_message"
proof -
  have e: "submission_failed_message =
      js ''Something went wrong submitting your intake. Please call '' @ fallback_phone @ js ''.''"
    by (simp add: submission_failed_message_def fallback_phone_def js_def)
  show ?thesis
    by (subst e) (rule sublist_appendI)
qed

lemma john_smith_not_success: "\<not> success john_smith"
  by (simp add: john_smith_def initial_state_def)

text \<open>
  C7. When the request settles on a state \<open>s\<close>: a response with a success status
  sets \<open>success\<close> and the view is \<open>Success\<close>; a response with any other status, and a
  request that could not be completed, set the message
  "Something went wrong submitting your intake. Please call (780) 250-8188.", which
  contains the phone number, and the view of a form that had not succeeded is
  \<open>EditingWithError\<close>. A run of \<open>onSubmit\<close> that made the request \<open>req\<close> ends with the
  state so obtained. No run of \<open>onSubmit\<close> ends with an error, and no sequence of
  events adds an uncaught error.
\<close>

theorem submit_outcomes:
  "(ok st \<longrightarrow>
      onSubmit_resume (Resolved st) s = Inr (s\<lparr>success := True, isSubmitting := False\<rparr>) \<and>
      view (s\<lparr>success := True, isSubmitting := False\<rparr>) = Success) \<and>
   (\<not> ok st \<longrightarrow>
      onSubmit_resume (Resolved st) s =
        Inr (s\<lparr>error := Some submission_failed_message, isSubmitting := False\<rparr>)) \<and>
   onSubmit_resume Rejected s =
     Inr (s\<lparr>error := Some submission_failed_message, isSubmitting := False\<rparr>) \<and>
   (\<not> success s \<longrightarrow>
      view (s\<lparr>error := Some submission_failed_message, isSubmitting := False\<rparr>) =
        EditingWithError) \<and>
   sublist fallback_phone submission_failed_message \<and>
   (onSubmit_begin sid s0 = (s, Some req) \<longrightarrow>
      (\<exists>s'. onSubmit fetch sid s0 = Inr (s', [req]) \<and>
            onSubmit_resume (fetch req) s = Inr s')) \<and>
   (\<exists>s' reqs. onSubmit fetch sid s0 = Inr (s', reqs)) \<and>
   uncaught (run w evs) = uncaught w"
proof -
  have a: "onSubmit_begin sid s0 = (s, Some req) \<longrightarrow>
      (\<exists>s'. onSubmit fetch sid s0 = Inr (s', [req]) \<and> onSubmit_resume (fetch req) s = Inr s')"
    using onSubmit_request [of sid s0 s req fetch] by blast
  have b: "\<exists>s' reqs. onSubmit fetch sid s0 = Inr (s', reqs)"
    by (rule onSubmit_total)
  have c: "(ok st \<longrightarrow>
      onSubmit_resume (Resolved st) s = Inr (s\<lparr>success := True, isSubmitting := False\<rparr>) \<and>
      view (s\<lparr>success := True, isSubmitting := False\<rparr>) = Success) \<and>
   (\<not> ok st \<longrightarrow>
      onSubmit_resume (Resolved st) s =
        Inr (s\<lparr>error := Some submission_failed_message, isSubmitting := False\<rparr>)) \<and>
   onSubmit_resume Rejected s =
     Inr (s\<lparr>error := Some submission_failed_message, isSubmitting := False\<rparr>) \<and>
   (\<not> success s \<longrightarrow>
      view (s\<lparr>error := Some submission_failed_message, isSubmitting := False\<rparr>) =
        EditingWithError)"
    by (simp add: onSubmit_resume_cases view_def)
  from a b c phone_in_message run_uncaught [of w evs] show ?thesis
    by blast
qed

theorem submit_outcomes_witness:
  "(\<exists>s'. onSubmit (\<lambda>_. Resolved 200) (Some (js ''abc123'')) john_smith =
       Inr (s', [save_request (js ''abc123'') john_smith]) \<and> view s' = Success) \<and>
   (\<exists>s'. onSubmit (\<lambda>_. Resolved 500) (Some (js ''abc123'')) john_smith =
       Inr (s', [save_request (js ''abc123'') john_smith]) \<and> view s' = EditingWithError \<and>
       error s' = Some submission_failed_message)"
proof -
  let ?s = "john_smith\<lparr>error := None, isSubmitting := True\<rparr>"
  let ?req = "save_request (js ''abc123'') john_smith"
  have a: "ok 200" and b: "\<not> ok 500"
    by (simp_all add: ok_def)
  have c: "\<not> success ?s"
    by (simp add: john_smith_not_success)
  note t = submit_outcomes [of 200 ?s "Some (js ''abc123'')" john_smith ?req
      "\<lambda>_. Resolved 200" "mount None" "[]"]
  note u = submit_outcomes [of 500 ?s "Some (js ''abc123'')" john_smith ?req
      "\<lambda>_. Resolved 500" "mount None" "[]"]
  from t john_smith_begin obtain s1
    where s1: "onSubmit (\<lambda>_. Resolved 200) (Some (js ''abc123'')) john_smith = Inr (s1, [?req])"
      and r1: "onSubmit_resume (Resolved 200) ?s = Inr s1"
    by blast
  from t a have v1: "onSubmit_resume (Resolved 200) ?s =
      Inr (?s\<lparr>success := True, isSubmitting := False\<rparr>)"
    and w1: "view (?s\<lparr>success := True, isSubmitting := False\<rparr>) = Success"
    by blast+
  from r1 v1 w1 have x1: "view s1 = Success"
    by simp
  from u john_smith_begin obtain s2
    where s2: "onSubmit (\<lambda>_. Resolved 500) (Some (js ''abc123'')) john_smith = Inr (s2, [?req])"
      and r2: "onSubmit_resume (Resolved 500) ?s = Inr s2"
    by blast
  from u b have v2: "onSubmit_resume (Resolved 500) ?s =
      Inr (?s\<lparr>error := Some submission_failed_message, isSubmitting := False\<rparr>)"
    by blast
  from u c have w2: "view (?s\<lparr>error := Some submission_failed_message, isSubmitting := False\<rparr>) =
      EditingWithError"
    by blast
  from r2 v2 w2 have x2: "view s2 = EditingWithError \<and> error s2 = Some submission_failed_message"
    by auto
  from s1 x1 s2 x2 show ?thesis by blast
qed

section \<open>The view as a state machine\<close>

lemma step_success: "success (form w) \<Longrightarrow> success (form (step w e))"
  by (cases e)
    (auto simp: edit_def click_def settle_def form_rendered_def submit_enabled_def
      onSubmit_resume_cases split: list.splits)

lemma run_success: "success (form w) \<Longrightarrow> success (form (run w evs))"
  unfolding run_def by (induction evs arbitrary: w) (simp_all add: step_success)

lemma view_Success_iff: "view s = Success \<longleftrightarrow> success s"
  by (simp add: view_def)

lemma run_Cons: "run w (e # es) = run (step w e) es"
  by (simp add: run_def)

lemma run_Nil: "run w [] = w"
  by (simp add: run_def)

lemma run_append: "run w (xs @ ys) = run (run w xs) ys"
  by (simp add: run_def)

lemma filled_in:
  "run (mount sid) fill_in =
     \<lparr>form = john_smith, sessionId = sid, outstanding = [], sent = [], uncaught = []\<rparr>"
  by (simp add: fill_in_def run_Cons run_Nil mount_def edit_def form_rendered_def
      initial_state_def john_smith_def)

lemma in_flight:
  "run (mount (Some (js ''abc123''))) (fill_in @ [ClickSubmit]) =
     \<lparr>form = john_smith\<lparr>error := None, isSubmitting := True\<rparr>,
      sessionId = Some (js ''abc123''),
      outstanding = [save_request (js ''abc123'') john_smith],
      sent = [save_request (js ''abc123'') john_smith], uncaught = []\<rparr>"
  using john_smith_not_success
  by (simp add: run_append filled_in run_Cons run_Nil click_def submit_enabled_def
      form_rendered_def john_smith_begin)
    (simp add: john_smith_def initial_state_def)

lemma submitted_ok_run:
  "run (mount (Some (js ''abc123''))) submitted_ok =
     \<lparr>form = john_smith\<lparr>error := None, isSubmitting := True, success := True,
                       isSubmitting := False\<rparr>,
      sessionId = Some (js ''abc123''), outstanding = [],
      sent = [save_request (js ''abc123'') john_smith], uncaught = []\<rparr>"
proof -
  have "run (mount (Some (js ''abc123''))) submitted_ok =
      run (run (mount (Some (js ''abc123''))) (fill_in @ [ClickSubmit])) [Settled (Resolved 200)]"
    by (simp add: submitted_ok_def run_def)
  then show ?thesis
    by (simp add: in_flight run_Cons run_Nil settle_def onSubmit_resume_cases ok_def)
qed

text \<open>
  C8. \<open>Success\<close> is terminal: from a state whose view is \<open>Success\<close>, every sequence of
  field edits, session changes, clicks on submit and settled requests leaves the view
  \<open>Success\<close>.
\<close>

theorem success_terminal:
  "view (form w) = Success \<Longrightarrow> view (form (run w evs)) = Success"
  by (simp add: view_Success_iff run_success)

theorem success_terminal_witness:
  "view (form (run (mount (Some (js ''abc123''))) submitted_ok)) = Success \<and>
   view (form (run (run (mount (Some (js ''abc123''))) submitted_ok) later_events)) = Success"
proof -
  have h: "view (form (run (mount (Some (js ''abc123''))) submitted_ok)) = Success"
    by (simp add: submitted_ok_run view_def)
  show ?thesis
    using h success_terminal [OF h, of later_events] by simp
qed

section \<open>One request at a time\<close>

lemma one_flight_mount: "one_flight (mount sid)"
  by (simp add: one_flight_def mount_def initial_state_def)

lemma onSubmit_begin_cases:
  "onSubmit_begin sid s = (s', None) \<Longrightarrow> isSubmitting s' = isSubmitting s"
  by (auto simp: onSubmit_begin_def Let_def split: option.splits if_splits)

lemma one_flight_click: "one_flight w \<Longrightarrow> one_flight (click w)"
proof (cases "onSubmit_begin (sessionId w) (form w)")
  case (Pair s' r)
  assume inv: "one_flight w"
  show ?thesis
  proof (cases r)
    case None
    with Pair inv onSubmit_begin_cases [of "sessionId w" "form w" s'] show ?thesis
      by (simp add: click_def one_flight_def)
  next
    case (Some req)
    with Pair inv onSubmit_begin_request [of "sessionId w" "form w" s' req] show ?thesis
      by (auto simp: click_def one_flight_def submit_enabled_def)
  qed
qed

lemma one_flight_settle: "one_flight w \<Longrightarrow> one_flight (settle r w)"
  by (cases "outstanding w") (auto simp: settle_def one_flight_def onSubmit_resume_cases)

lemma one_flight_step: "one_flight w \<Longrightarrow> one_flight (step w e)"
proof (cases e)
  case ClickSubmit
  assume "one_flight w"
  with ClickSubmit show ?thesis by (simp add: one_flight_click)
next
  case (Settled r)
  assume "one_flight w"
  with Settled show ?thesis by (simp add: one_flight_settle)
qed (simp_all add: edit_def one_flight_def)

lemma one_flight_run: "one_flight w \<Longrightarrow> one_flight (run w evs)"
  unfolding run_def by (induction evs arbitrary: w) (simp_all add: one_flight_step)

lemma settle_clears:
  "one_flight w \<Longrightarrow> \<not> isSubmitting (form (settle r w)) \<and> outstanding (settle r w) = []"
  by (cases "outstanding w") (auto simp: settle_def one_flight_def onSubmit_resume_cases)

text \<open>
  C9. In every state \<open>w\<close> reached from the mounted form by any sequence of events, at
  most one request is outstanding, \<open>isSubmitting\<close> holds exactly when one is, a click
  on submit while one is outstanding changes nothing (no second request), and when the
  request settles, with any result, \<open>isSubmitting\<close> is cleared and nothing is
  outstanding.
\<close>

theorem single_flight:
  "w = run (mount sid) evs \<Longrightarrow>
     length (outstanding w) \<le> 1 \<and>
     (isSubmitting (form w) \<longleftrightarrow> outstanding w \<noteq> []) \<and>
     (outstanding w \<noteq> [] \<longrightarrow> step w ClickSubmit = w) \<and>
     \<not> isSubmitting (form (step w (Settled r))) \<and>
     outstanding (step w (Settled r)) = []"
proof -
  assume w: "w = run (mount sid) evs"
  have inv: "one_flight w"
    unfolding w by (rule one_flight_run [OF one_flight_mount])
  have "step w ClickSubmit = w" if "outstanding w \<noteq> []"
    using that inv by (simp add: click_def submit_enabled_def one_flight_def)
  with inv settle_clears [OF inv, of r] show ?thesis
    by (simp add: one_flight_def)
qed

theorem single_flight_witness:
  "outstanding (run (mount (Some (js ''abc123''))) (fill_in @ [ClickSubmit])) =
     [save_request (js ''abc123'') john_smith] \<and>
   step (run (mount (Some (js ''abc123''))) (fill_in @ [ClickSubmit])) ClickSubmit =
     run (mount (Some (js ''abc123''))) (fill_in @ [ClickSubmit]) \<and>
   outstanding (step (run (mount (Some (js ''abc123''))) (fill_in @ [ClickSubmit]))
     (Settled (Resolved 500))) = []"
proof -
  have h: "outstanding (run (mount (Some (js ''abc123''))) (fill_in @ [ClickSubmit])) \<noteq> []"
    by (simp add: in_flight)
  show ?thesis
    using h single_flight [OF refl, of "Some (js ''abc123'')" "fill_in @ [ClickSubmit]"
        "Resolved 500"]
    by (simp add: in_flight)
qed

section \<open>The draft is not touched by a submission\<close>

lemma onSubmit_begin_draft: "draft (fst (onSubmit_begin sid s)) = draft s"
  by (auto simp: onSubmit_begin_def Let_def draft_def split: option.splits)

lemma onSubmit_resume_draft: "onSubmit_resume r s = Inr s' \<Longrightarrow> draft s' = draft s"
  by (auto simp: onSubmit_resume_cases draft_def split: if_splits)

lemma onSubmit_draft: "onSubmit fetch sid s = Inr (s', reqs) \<Longrightarrow> draft s' = draft s"
  using onSubmit_begin_draft [of sid s]
  by (cases "onSubmit_begin sid s")
    (auto simp: onSubmit_def split: option.splits sum.splits dest: onSubmit_resume_draft)

lemma click_draft: "draft (form (click w)) = draft (form w)"
  using onSubmit_begin_draft [of "sessionId w" "form w"]
  by (cases "onSubmit_begin (sessionId w) (form w)") (auto simp: click_def split: option.splits)

lemma settle_draft: "draft (form (settle r w)) = draft (form w)"
  by (cases "outstanding w")
    (auto simp: settle_def onSubmit_resume_cases draft_def)

text \<open>
  C10. \<open>onSubmit\<close> never changes the six fields of the draft: a whole run ends in a
  state with the draft it started from, and so do the click on submit and the settling
  of the request taken apart, on any state of the component. When validation fails or
  the session is absent, the final state is the initial one with only \<open>error\<close> set to a
  message, and no request is made.
\<close>

theorem submit_keeps_draft:
  "(\<exists>s' reqs. onSubmit fetch sid s = Inr (s', reqs) \<and> draft s' = draft s) \<and>
   draft (form (step w ClickSubmit)) = draft (form w) \<and>
   draft (form (step w (Settled r))) = draft (form w) \<and>
   (safeParse (schema_input s) = None \<or> sid = None \<or> sid = Some (js '''') \<longrightarrow>
      (\<exists>m. onSubmit fetch sid s = Inr (s\<lparr>error := Some m\<rparr>, [])))"
proof -
  obtain s' reqs where r: "onSubmit fetch sid s = Inr (s', reqs)"
    using onSubmit_total by blast
  have a: "\<exists>s' reqs. onSubmit fetch sid s = Inr (s', reqs) \<and> draft s' = draft s"
    using r onSubmit_draft [OF r] by blast
  have b: "\<exists>m. onSubmit fetch sid s = Inr (s\<lparr>error := Some m\<rparr>, [])"
    if "safeParse (schema_input s) = None \<or> sid = None \<or> sid = Some (js '''')"
  proof (cases "safeParse (schema_input s) = None")
    case True
    then show ?thesis using onSubmit_invalid [of s fetch sid] by blast
  next
    case False
    with that have "sid = None \<or> sid = Some (js '''')" by blast
    with False show ?thesis using onSubmit_no_session [of sid s fetch] by blast
  qed
  show ?thesis
    using a b by (simp add: click_draft settle_draft)
qed

theorem submit_keeps_draft_witness:
  "draft (form (step (run (mount (Some (js ''abc123''))) fill_in) ClickSubmit)) =
     draft john_smith \<and>
   (\<exists>m. onSubmit (\<lambda>_. Resolved 200) None john_smith =
      Inr (john_smith\<lparr>error := Some m\<rparr>, []))"
proof -
  have h: "safeParse (schema_input john_smith) = None \<or> (None :: jsstring option) = None \<or>
      None = Some (js '''')"
    by simp
  note t = submit_keeps_draft [of "\<lambda>_. Resolved 200" None john_smith
      "run (mount (Some (js ''abc123''))) fill_in" Rejected]
  from t have a: "draft (form (step (run (mount (Some (js ''abc123''))) fill_in) ClickSubmit)) =
      draft (form (run (mount (Some (js ''abc123''))) fill_in))"
    by blast
  from t h have b: "\<exists>m. onSubmit (\<lambda>_. Resolved 200) None john_smith =
      Inr (john_smith\<lparr>error := Some m\<rparr>, [])"
    by blast
  from a have "draft (form (step (run (mount (Some (js ''abc123''))) fill_in) ClickSubmit)) =
      draft john_smith"
    by (simp only: filled_in world.simps)
  with b show ?thesis by blast
qed

end
